theory Spec2Isabelle
  imports Complex_Main "HOL-Library.Sublist"
begin

section \<open>The video id resolver (getYouTubeId)\<close>

text \<open>
  JavaScript strings are modelled as \<open>string\<close>. The three string operations the
  resolver uses are \<open>String.prototype.includes\<close>, \<open>split\<close> with a string separator
  and \<open>split\<close> with the character class \<open>/[?&]/\<close>.
\<close>

fun includes_str :: "string \<Rightarrow> string \<Rightarrow> bool" where
  "includes_str sep [] = (sep = [])"
| "includes_str sep (c # cs) = (prefix sep (c # cs) \<or> includes_str sep cs)"

text \<open>
  \<open>s.split(sep)\<close> for a string separator: the occurrences of \<open>sep\<close> are found from
  left to right, without overlap; \<open>acc\<close> holds the current piece, reversed. An empty
  separator cuts the string into its characters.
\<close>

function split_str :: "string \<Rightarrow> string \<Rightarrow> string \<Rightarrow> string list" where
  "split_str sep acc [] = [rev acc]"
| "split_str sep acc (c # cs) =
     (if sep \<noteq> [] \<and> prefix sep (c # cs)
      then rev acc # split_str sep [] (drop (length sep) (c # cs))
      else split_str sep (c # acc) cs)"
  by pat_completeness auto
termination
  by (relation "measure (\<lambda>(sep, acc, s). length s)") (auto simp: neq_Nil_conv)

definition js_split :: "string \<Rightarrow> string \<Rightarrow> string list" where
  "js_split sep s = (if sep = [] then map (\<lambda>c. [c]) s else split_str sep [] s)"

text \<open>\<open>s.split(/[?&]/)\<close>: every character of the class is a separator.\<close>

fun split_class :: "(char \<Rightarrow> bool) \<Rightarrow> string \<Rightarrow> string \<Rightarrow> string list" where
  "split_class P acc [] = [rev acc]"
| "split_class P acc (c # cs) =
     (if P c then rev acc # split_class P [] cs else split_class P (c # acc) cs)"

definition query_sep :: "char \<Rightarrow> bool" where
  "query_sep c = (c = CHR ''?'' \<or> c = CHR ''&'')"

text \<open>Array indexing \<open>xs[i]\<close>: \<open>undefined\<close> (here \<open>None\<close>) out of range.\<close>

definition at_index :: "'a list \<Rightarrow> nat \<Rightarrow> 'a option" where
  "at_index xs i = (if i < length xs then Some (xs ! i) else None)"

text \<open>
  \<open>url.split(marker)[1]?.split(/[?&]/)[0]\<close>, followed by the test \<open>if (id)\<close>:
  \<open>undefined\<close> and the empty string are both falsy.
\<close>

definition id_after :: "string \<Rightarrow> string \<Rightarrow> string option" where
  "id_after marker url =
     (case at_index (js_split marker url) 1 of
        None \<Rightarrow> None
      | Some rest \<Rightarrow> at_index (split_class query_sep [] rest) 0)"

definition truthy :: "string option \<Rightarrow> bool" where
  "truthy r = (case r of None \<Rightarrow> False | Some s \<Rightarrow> s \<noteq> [])"

definition getYouTubeId :: "string \<Rightarrow> string \<Rightarrow> string" where
  "getYouTubeId url fallback =
     (if includes_str ''embed/'' url \<and> truthy (id_after ''embed/'' url)
      then the (id_after ''embed/'' url)
      else if includes_str ''watch?v='' url \<and> truthy (id_after ''watch?v='' url)
      then the (id_after ''watch?v='' url)
      else if includes_str ''youtu.be/'' url \<and> truthy (id_after ''youtu.be/'' url)
      then the (id_after ''youtu.be/'' url)
      else fallback)"

section \<open>The player component (App)\<close>

subsection \<open>Catalog data\<close>

text \<open>
  The catalog module \<open>./data/videos\<close> supplies \<open>allVideos\<close>, \<open>categoryGroups\<close> and the
  type \<open>VideoItem\<close>; the component reads the fields below. The catalog is a parameter
  of the model. JavaScript numbers are modelled as real numbers (no rounding, no
  \<open>NaN\<close>), object identity of catalog items as equality of records. The
  picture-in-picture controls and the page's scroll lock touch none of the state
  below and are left out.
\<close>

record VideoItem =
  item_id :: string
  slug :: string
  category_slug :: string
  mediaType :: string
  mediaUrl :: string
  durationSeconds :: real

record CategoryGroup =
  group_slug :: string
  contents :: "VideoItem list"

record Catalog =
  allVideos :: "VideoItem list"
  categoryGroups :: "CategoryGroup list"

subsection \<open>Component state\<close>

datatype PlayerMode = Hidden | Full | Mini

text \<open>
  The countdown object \<open>{seconds, nextVideo}\<close>; \<open>obj\<close> is the identity of the object,
  which is what the effect's dependency check compares.
\<close>

record Countdown =
  seconds :: int
  nextVideo :: VideoItem
  obj :: nat

text \<open>The two backend handles: the media element and the embedded player.\<close>

record VideoElement =
  el_currentTime :: real
  el_paused :: bool

record YTPlayer =
  yt_time :: real
  yt_duration :: real
  yt_seek_throws :: bool

text \<open>The callbacks handed to \<open>window.setTimeout\<close>, each queued with its delay in ms.\<close>

datatype TimerAction = ClearActiveVideo | ClearSkipIndicator | CountdownTick

record AppState =
  activeVideo :: "VideoItem option"
  playerMode :: PlayerMode
  isPlaying :: bool
  currentTime :: real
  duration :: real
  relatedOpen :: bool
  dragOffset :: real
  isDragging :: bool
  skipIndicator :: "string option"
  nextCountdown :: "Countdown option"
  visibleCategoryCount :: nat
  ytReady :: bool
  ytLoaded :: bool
  videoRef :: "VideoElement option"
  ytPlayerRef :: "YTPlayer option"
  dragStartY :: real
  touchStartY :: real
  timers :: "(nat \<times> TimerAction) list"
  polling :: bool
  nextObj :: nat

definition init :: AppState where
  "init = \<lparr> activeVideo = None, playerMode = Hidden, isPlaying = False, currentTime = 0,
     duration = 0, relatedOpen = False, dragOffset = 0, isDragging = False,
     skipIndicator = None, nextCountdown = None, visibleCategoryCount = 2,
     ytReady = False, ytLoaded = False, videoRef = None, ytPlayerRef = None,
     dragStartY = 0, touchStartY = 0, timers = [], polling = False, nextObj = 0 \<rparr>"

definition isYouTube :: "AppState \<Rightarrow> bool" where
  "isYouTube st = (case activeVideo st of None \<Rightarrow> False | Some v \<Rightarrow> mediaType v = ''YOUTUBE'')"

definition ytControlsDisabled :: "AppState \<Rightarrow> bool" where
  "ytControlsDisabled st = (isYouTube st \<and> \<not> ytLoaded st)"

definition relatedVideos :: "Catalog \<Rightarrow> AppState \<Rightarrow> VideoItem list" where
  "relatedVideos cat st =
     (case activeVideo st of
        None \<Rightarrow> []
      | Some a \<Rightarrow> filter (\<lambda>video. category_slug video = category_slug a) (allVideos cat))"

text \<open>\<open>a || b\<close> on numbers: \<open>0\<close> is falsy.\<close>

definition or_num :: "real \<Rightarrow> real \<Rightarrow> real" where
  "or_num a b = (if a \<noteq> 0 then a else b)"

text \<open>\<open>activeVideo?.durationSeconds\<close>, with \<open>undefined\<close> read as falsy.\<close>

definition activeDurationSeconds :: "AppState \<Rightarrow> real" where
  "activeDurationSeconds st = (case activeVideo st of None \<Rightarrow> 0 | Some v \<Rightarrow> durationSeconds v)"

subsection \<open>Handlers\<close>

definition playVideo :: "VideoItem \<Rightarrow> AppState \<Rightarrow> AppState" where
  "playVideo video st =
     st\<lparr> activeVideo := Some video, playerMode := Full, relatedOpen := False,
         currentTime := 0, duration := 0, ytLoaded := False, nextCountdown := None \<rparr>"

definition closePlayer :: "AppState \<Rightarrow> AppState" where
  "closePlayer st =
     st\<lparr> playerMode := Hidden, relatedOpen := False, nextCountdown := None,
         timers := timers st @ [(220, ClearActiveVideo)] \<rparr>"

definition ytPath :: "AppState \<Rightarrow> bool" where
  "ytPath st = (isYouTube st \<and> ytPlayerRef st \<noteq> None \<and> ytLoaded st)"

definition togglePlay :: "AppState \<Rightarrow> AppState" where
  "togglePlay st =
     (if ytPath st then st\<lparr> isPlaying := \<not> isPlaying st \<rparr>
      else case videoRef st of
        None \<Rightarrow> st
      | Some video \<Rightarrow>
          if el_paused video
          then st\<lparr> videoRef := Some (video\<lparr> el_paused := False \<rparr>), isPlaying := True \<rparr>
          else st\<lparr> videoRef := Some (video\<lparr> el_paused := True \<rparr>), isPlaying := False \<rparr>)"

definition skipLabel :: "real \<Rightarrow> string" where
  "skipLabel amount = (if amount > 0 then ''+10s'' else ''-10s'')"

definition skipBy :: "real \<Rightarrow> AppState \<Rightarrow> AppState" where
  "skipBy amount st =
     (if ytPath st then
        (case ytPlayerRef st of
           None \<Rightarrow> st
         | Some player \<Rightarrow>
             let current = or_num (yt_time player) 0;
                 total = or_num (yt_duration player)
                           (or_num (duration st) (or_num (activeDurationSeconds st) 0))
             in if total = 0 then st
                else let nextTime = min (max 0 (current + amount)) total
                     in if yt_seek_throws player then st
                        else st\<lparr> ytPlayerRef := Some (player\<lparr> yt_time := nextTime \<rparr>),
                                 currentTime := nextTime,
                                 skipIndicator := Some (skipLabel amount),
                                 timers := timers st @ [(450, ClearSkipIndicator)] \<rparr>)
      else case videoRef st of
        None \<Rightarrow> st
      | Some video \<Rightarrow>
          st\<lparr> videoRef := Some (video\<lparr> el_currentTime :=
                   min (max 0 (el_currentTime video + amount))
                       (or_num (duration st) (or_num (activeDurationSeconds st) 0)) \<rparr>),
              skipIndicator := Some (skipLabel amount),
              timers := timers st @ [(450, ClearSkipIndicator)] \<rparr>)"

definition handleSeek :: "real \<Rightarrow> AppState \<Rightarrow> AppState" where
  "handleSeek v st =
     (if ytPath st then
        (case ytPlayerRef st of
           None \<Rightarrow> st
         | Some player \<Rightarrow>
             if yt_seek_throws player then st
             else st\<lparr> ytPlayerRef := Some (player\<lparr> yt_time := v \<rparr>), currentTime := v \<rparr>)
      else case videoRef st of
        None \<Rightarrow> st
      | Some video \<Rightarrow>
          st\<lparr> videoRef := Some (video\<lparr> el_currentTime := v \<rparr>), currentTime := v \<rparr>)"

text \<open>
  \<open>noDrag\<close> is \<open>target.closest("[data-no-drag]")\<close> being non-null.
\<close>

definition handlePlayerPointerDown :: "real \<Rightarrow> bool \<Rightarrow> AppState \<Rightarrow> AppState" where
  "handlePlayerPointerDown clientY noDrag st =
     (if playerMode st \<noteq> Full then st
      else if noDrag then st
      else st\<lparr> isDragging := True, dragStartY := clientY \<rparr>)"

definition handlePlayerPointerMove :: "real \<Rightarrow> AppState \<Rightarrow> AppState" where
  "handlePlayerPointerMove clientY st =
     (if \<not> isDragging st then st
      else st\<lparr> dragOffset := max 0 (clientY - dragStartY st) \<rparr>)"

text \<open>\<open>innerHeight\<close> is \<open>window.innerHeight\<close>.\<close>

definition handlePlayerPointerUp :: "real \<Rightarrow> AppState \<Rightarrow> AppState" where
  "handlePlayerPointerUp innerHeight st =
     (if \<not> isDragging st then st
      else let st1 = st\<lparr> isDragging := False \<rparr>;
               st2 = (if dragOffset st > innerHeight * (22 / 100)
                      then st1\<lparr> playerMode := Mini, relatedOpen := False \<rparr> else st1)
           in st2\<lparr> dragOffset := 0 \<rparr>)"

definition handleWheel :: "real \<Rightarrow> AppState \<Rightarrow> AppState" where
  "handleWheel deltaY st =
     (if playerMode st \<noteq> Full then st
      else let st1 = (if deltaY > 20 \<and> \<not> relatedOpen st then st\<lparr> relatedOpen := True \<rparr> else st)
           in if deltaY < - 20 \<and> relatedOpen st then st1\<lparr> relatedOpen := False \<rparr> else st1)"

text \<open>The argument is \<open>touches[0]?.clientY\<close>, \<open>None\<close> when the list is empty.\<close>

definition handleTouchStart :: "real option \<Rightarrow> AppState \<Rightarrow> AppState" where
  "handleTouchStart y st = st\<lparr> touchStartY := (case y of None \<Rightarrow> 0 | Some c \<Rightarrow> c) \<rparr>"

definition handleTouchEnd :: "real option \<Rightarrow> AppState \<Rightarrow> AppState" where
  "handleTouchEnd y st =
     (let endY = (case y of None \<Rightarrow> 0 | Some c \<Rightarrow> c);
          delta = touchStartY st - endY;
          st1 = (if delta > 50 then st\<lparr> relatedOpen := True \<rparr> else st)
      in if delta < - 50 then st1\<lparr> relatedOpen := False \<rparr> else st1)"

text \<open>\<open>Array.prototype.findIndex\<close>: the first index that matches, \<open>-1\<close> when none does.\<close>

fun findIndex :: "('a \<Rightarrow> bool) \<Rightarrow> 'a list \<Rightarrow> int" where
  "findIndex P [] = - 1"
| "findIndex P (x # xs) =
     (if P x then 0 else (let i = findIndex P xs in if i < 0 then - 1 else i + 1))"

definition pickNext :: "VideoItem \<Rightarrow> VideoItem list \<Rightarrow> VideoItem option" where
  "pickNext a rel =
     (let currentIndex = findIndex (\<lambda>video. item_id video = item_id a) rel
      in at_index rel (nat ((currentIndex + 1) mod int (length rel))))"

text \<open>
  \<open>pickNext\<close> is \<open>relatedVideos[(currentIndex + 1) % relatedVideos.length]\<close>; the index is
  in range whenever the list is not empty, so the \<open>None\<close> case below is never taken.
\<close>

definition handleVideoEnded :: "Catalog \<Rightarrow> AppState \<Rightarrow> AppState" where
  "handleVideoEnded cat st =
     (case activeVideo st of
        None \<Rightarrow> st
      | Some a \<Rightarrow>
          if length (relatedVideos cat st) < 2 then st
          else case pickNext a (relatedVideos cat st) of
                 None \<Rightarrow> st
               | Some nv \<Rightarrow>
                   st\<lparr> nextCountdown := Some \<lparr> seconds = 2, nextVideo = nv, obj = nextObj st \<rparr>,
                       nextObj := nextObj st + 1 \<rparr>)"

definition handleMiniRestore :: "AppState \<Rightarrow> AppState" where
  "handleMiniRestore st = st\<lparr> playerMode := Full \<rparr>"

subsection \<open>Backend events\<close>

text \<open>
  The embedded player's \<open>onReady\<close> and \<open>onStateChange\<close> callbacks. They close over
  the render in which the player was created; the player is created anew whenever the
  active item changes, so what they read is the current state.
\<close>

datatype YTState = PLAYING | PAUSED | ENDED | OTHER

definition ytGetDuration :: "AppState \<Rightarrow> real" where
  "ytGetDuration st = (case ytPlayerRef st of None \<Rightarrow> 0 | Some player \<Rightarrow> yt_duration player)"

definition onReady :: "AppState \<Rightarrow> AppState" where
  "onReady st =
     st\<lparr> duration := or_num (ytGetDuration st) 0, currentTime := 0,
         isPlaying := True, ytLoaded := True \<rparr>"

definition onStateChange :: "Catalog \<Rightarrow> YTState \<Rightarrow> AppState \<Rightarrow> AppState" where
  "onStateChange cat d st =
     (case d of
        PLAYING \<Rightarrow> st\<lparr> isPlaying := True, ytLoaded := True \<rparr>
      | PAUSED \<Rightarrow> st\<lparr> isPlaying := False \<rparr>
      | ENDED \<Rightarrow> handleVideoEnded cat (st\<lparr> isPlaying := False \<rparr>)
      | OTHER \<Rightarrow> st)"

text \<open>The 500 ms polling callback of the embedded backend.\<close>

definition pollTick :: "AppState \<Rightarrow> AppState" where
  "pollTick st =
     (case ytPlayerRef st of
        None \<Rightarrow> st
      | Some player \<Rightarrow>
          let total = or_num (yt_duration player) (duration st);
              st1 = st\<lparr> currentTime := yt_time player \<rparr>
          in if total \<noteq> 0 then st1\<lparr> duration := total \<rparr> else st1)"

text \<open>The media element's \<open>onTimeUpdate\<close> and \<open>onLoadedMetadata\<close>.\<close>

definition onTimeUpdate :: "AppState \<Rightarrow> AppState" where
  "onTimeUpdate st =
     (case videoRef st of None \<Rightarrow> st | Some video \<Rightarrow> st\<lparr> currentTime := el_currentTime video \<rparr>)"

definition onLoadedMetadata :: "real \<Rightarrow> AppState \<Rightarrow> AppState" where
  "onLoadedMetadata d st = st\<lparr> duration := d \<rparr>"

subsection \<open>The feed sentinel\<close>

definition onIntersect :: "Catalog \<Rightarrow> bool \<Rightarrow> AppState \<Rightarrow> AppState" where
  "onIntersect cat isIntersecting st =
     (if \<not> isIntersecting then st
      else st\<lparr> visibleCategoryCount :=
                 min (visibleCategoryCount st + 1) (length (categoryGroups cat)) \<rparr>)"

definition sentinelRendered :: "Catalog \<Rightarrow> AppState \<Rightarrow> bool" where
  "sentinelRendered cat st = (visibleCategoryCount st < length (categoryGroups cat))"

subsection \<open>Timers\<close>

definition runTimer :: "TimerAction \<Rightarrow> AppState \<Rightarrow> AppState" where
  "runTimer a st =
     (case a of
        ClearActiveVideo \<Rightarrow> st\<lparr> activeVideo := None \<rparr>
      | ClearSkipIndicator \<Rightarrow> st\<lparr> skipIndicator := None \<rparr>
      | CountdownTick \<Rightarrow>
          (case nextCountdown st of
             None \<Rightarrow> st
           | Some prev \<Rightarrow>
               st\<lparr> nextCountdown := Some (prev\<lparr> seconds := seconds prev - 1, obj := nextObj st \<rparr>),
                   nextObj := nextObj st + 1 \<rparr>))"

text \<open>The \<open>k\<close>-th pending timeout expires: it leaves the queue and its callback runs.\<close>

definition fireTimer :: "nat \<Rightarrow> AppState \<Rightarrow> AppState" where
  "fireTimer k st =
     (if k < length (timers st)
      then runTimer (snd (timers st ! k)) (st\<lparr> timers := take k (timers st) @ drop (Suc k) (timers st) \<rparr>)
      else st)"

subsection \<open>Rendering and effects\<close>

text \<open>
  After a handler has run, the component renders and the effects whose dependencies
  changed run, in source order. \<open>prev\<close> is the state of the previous render and
  \<open>cur\<close> the one being rendered; \<open>acc\<close> collects what the effects do.

  The media element is mounted exactly while a non-embedded item is active.
\<close>

definition mountVideo :: "AppState \<Rightarrow> AppState" where
  "mountVideo st =
     st\<lparr> videoRef :=
           (if activeVideo st \<noteq> None \<and> \<not> isYouTube st
            then (case videoRef st of
                    None \<Rightarrow> Some \<lparr> el_currentTime = 0, el_paused = True \<rparr>
                  | Some video \<Rightarrow> Some video)
            else None) \<rparr>"

definition autoplayEffect :: "AppState \<Rightarrow> AppState \<Rightarrow> AppState \<Rightarrow> AppState" where
  "autoplayEffect prev cur acc =
     (if activeVideo cur = activeVideo prev then acc
      else if activeVideo cur = None then acc
      else if isYouTube cur then acc
      else case videoRef acc of
             None \<Rightarrow> acc
           | Some video \<Rightarrow>
               acc\<lparr> videoRef := Some (video\<lparr> el_currentTime := 0, el_paused := False \<rparr>) \<rparr>)"

definition clearCountdownTimer :: "AppState \<Rightarrow> AppState" where
  "clearCountdownTimer st = st\<lparr> timers := filter (\<lambda>t. snd t \<noteq> CountdownTick) (timers st) \<rparr>"

definition countdownEffect :: "AppState \<Rightarrow> AppState \<Rightarrow> AppState \<Rightarrow> AppState" where
  "countdownEffect prev cur acc =
     (if nextCountdown cur = nextCountdown prev then acc
      else let acc1 = clearCountdownTimer acc in
        case nextCountdown cur of
          None \<Rightarrow> acc1
        | Some c \<Rightarrow>
            if seconds c \<le> 0
            then (playVideo (nextVideo c) acc1)\<lparr> nextCountdown := None \<rparr>
            else acc1\<lparr> timers := timers acc1 @ [(1000, CountdownTick)] \<rparr>)"

definition newPlayer :: YTPlayer where
  "newPlayer = \<lparr> yt_time = 0, yt_duration = 0, yt_seek_throws = False \<rparr>"

definition createPlayerEffect :: "AppState \<Rightarrow> AppState \<Rightarrow> AppState \<Rightarrow> AppState" where
  "createPlayerEffect prev cur acc =
     (if activeVideo cur = activeVideo prev \<and> ytReady cur = ytReady prev then acc
      else if activeVideo cur \<noteq> None \<and> isYouTube cur \<and> ytReady cur
      then acc\<lparr> ytPlayerRef := Some newPlayer \<rparr>
      else acc)"

definition pollingEffect :: "AppState \<Rightarrow> AppState \<Rightarrow> AppState \<Rightarrow> AppState" where
  "pollingEffect prev cur acc =
     (if activeVideo cur = activeVideo prev \<and> duration cur = duration prev then acc
      else acc\<lparr> polling := (isYouTube cur \<and> ytPlayerRef acc \<noteq> None) \<rparr>)"

definition runEffects :: "AppState \<Rightarrow> AppState \<Rightarrow> AppState" where
  "runEffects prev cur =
     pollingEffect prev cur
       (createPlayerEffect prev cur
          (countdownEffect prev cur
             (autoplayEffect prev cur (mountVideo cur))))"

text \<open>
  Only the countdown effect sets state, and only when the countdown has reached
  zero; the render that follows runs the effects once more.
\<close>

definition commit :: "AppState \<Rightarrow> AppState \<Rightarrow> AppState" where
  "commit prev cur = (let s1 = runEffects prev cur in runEffects (mountVideo cur) s1)"

subsection \<open>Events\<close>

datatype Event =
    PlayVideo VideoItem
  | ClosePlayer
  | TogglePlay
  | SkipBy real
  | Seek real
  | PointerDown real bool
  | PointerMove real
  | PointerUp real
  | PointerCancel real
  | Wheel real
  | TouchStart "real option"
  | TouchEnd "real option"
  | MiniRestore
  | CancelCountdown
  | VideoTimeUpdate
  | VideoLoadedMetadata real
  | VideoPlay
  | VideoPause
  | VideoEnded
  | VideoProgress VideoElement
  | YtApiReady
  | YtReady
  | YtStateChange YTState
  | YtPoll
  | YtProgress YTPlayer
  | Intersect bool
  | TimerFires nat

text \<open>
  \<open>VideoProgress\<close> and \<open>YtProgress\<close> are the backends changing on their own (playback
  advancing, metadata arriving); the other events are the component's handlers.
\<close>

definition handle :: "Catalog \<Rightarrow> Event \<Rightarrow> AppState \<Rightarrow> AppState" where
  "handle cat e st =
     (case e of
        PlayVideo video \<Rightarrow> playVideo video st
      | ClosePlayer \<Rightarrow> closePlayer st
      | TogglePlay \<Rightarrow> togglePlay st
      | SkipBy amount \<Rightarrow> skipBy amount st
      | Seek v \<Rightarrow> handleSeek v st
      | PointerDown y noDrag \<Rightarrow> handlePlayerPointerDown y noDrag st
      | PointerMove y \<Rightarrow> handlePlayerPointerMove y st
      | PointerUp h \<Rightarrow> handlePlayerPointerUp h st
      | PointerCancel h \<Rightarrow> handlePlayerPointerUp h st
      | Wheel deltaY \<Rightarrow> handleWheel deltaY st
      | TouchStart y \<Rightarrow> handleTouchStart y st
      | TouchEnd y \<Rightarrow> handleTouchEnd y st
      | MiniRestore \<Rightarrow> handleMiniRestore st
      | CancelCountdown \<Rightarrow> st\<lparr> nextCountdown := None \<rparr>
      | VideoTimeUpdate \<Rightarrow> onTimeUpdate st
      | VideoLoadedMetadata d \<Rightarrow> onLoadedMetadata d st
      | VideoPlay \<Rightarrow> st\<lparr> isPlaying := True \<rparr>
      | VideoPause \<Rightarrow> st\<lparr> isPlaying := False \<rparr>
      | VideoEnded \<Rightarrow> handleVideoEnded cat st
      | VideoProgress video \<Rightarrow> (if videoRef st = None then st else st\<lparr> videoRef := Some video \<rparr>)
      | YtApiReady \<Rightarrow> st\<lparr> ytReady := True \<rparr>
      | YtReady \<Rightarrow> onReady st
      | YtStateChange d \<Rightarrow> onStateChange cat d st
      | YtPoll \<Rightarrow> (if polling st then pollTick st else st)
      | YtProgress player \<Rightarrow> (if ytPlayerRef st = None then st else st\<lparr> ytPlayerRef := Some player \<rparr>)
      | Intersect b \<Rightarrow> (if sentinelRendered cat st then onIntersect cat b st else st)
      | TimerFires k \<Rightarrow> fireTimer k st)"

definition step :: "Catalog \<Rightarrow> Event \<Rightarrow> AppState \<Rightarrow> AppState" where
  "step cat e st = commit st (handle cat e st)"

fun run :: "Catalog \<Rightarrow> Event list \<Rightarrow> AppState \<Rightarrow> AppState" where
  "run cat [] st = st"
| "run cat (e # es) st = run cat es (step cat e st)"

section \<open>Vocabulary of the properties\<close>

text \<open>
  The values held by the component's \<open>useState\<close> hooks and its two coordinate refs:
  everything but the backend handles, the timer queue and the polling interval.
\<close>

type_synonym HookValues =
  "VideoItem option \<times> PlayerMode \<times> bool \<times> real \<times> real \<times> bool \<times> real \<times> bool \<times>
   string option \<times> Countdown option \<times> nat \<times> bool \<times> bool \<times> real \<times> real \<times> nat"

definition hooks :: "AppState \<Rightarrow> HookValues" where
  "hooks st =
     (activeVideo st, playerMode st, isPlaying st, currentTime st, duration st,
      relatedOpen st, dragOffset st, isDragging st, skipIndicator st, nextCountdown st,
      visibleCategoryCount st, ytReady st, ytLoaded st, dragStartY st, touchStartY st,
      nextObj st)"

text \<open>The countdown effect is about to open the next item.\<close>

definition countdownDue :: "AppState \<Rightarrow> AppState \<Rightarrow> bool" where
  "countdownDue prev cur =
     (nextCountdown cur \<noteq> nextCountdown prev \<and>
      (case nextCountdown cur of None \<Rightarrow> False | Some c \<Rightarrow> seconds c \<le> 0))"





text \<open>\<open>clamp(x, lo, hi)\<close> of the specification.\<close>

definition clamp :: "real \<Rightarrow> real \<Rightarrow> real \<Rightarrow> real" where
  "clamp x lo hi = min (max x lo) hi"

text \<open>
  The upper bound the skip uses: \<open>duration || activeVideo?.durationSeconds || 0\<close>, and
  for the embedded player its own \<open>getDuration()\<close> first.
\<close>

definition fallbackDuration :: "AppState \<Rightarrow> real" where
  "fallbackDuration st = or_num (duration st) (or_num (activeDurationSeconds st) 0)"

definition ytTotal :: "YTPlayer \<Rightarrow> AppState \<Rightarrow> real" where
  "ytTotal player st = or_num (yt_duration player) (fallbackDuration st)"

subsection \<open>The resolver as the specification words it\<close>

text \<open>The text after the first occurrence of a marker, if there is one.\<close>

fun after_marker :: "string \<Rightarrow> string \<Rightarrow> string option" where
  "after_marker m [] = (if m = [] then Some [] else None)"
| "after_marker m (c # cs) =
     (if prefix m (c # cs) then Some (drop (length m) (c # cs)) else after_marker m cs)"

text \<open>The text before the first occurrence of a marker; all of it when there is none.\<close>

fun before_marker :: "string \<Rightarrow> string \<Rightarrow> string" where
  "before_marker m [] = []"
| "before_marker m (c # cs) = (if prefix m (c # cs) then [] else c # before_marker m cs)"

definition cut_query :: "string \<Rightarrow> string" where
  "cut_query s = takeWhile (\<lambda>c. \<not> query_sep c) s"

text \<open>
  One URL shape as the specification states it: what follows the marker, up to the first
  \<open>?\<close> or \<open>&\<close>; no match when that is empty.
\<close>

definition shape_stated :: "string \<Rightarrow> string \<Rightarrow> string option" where
  "shape_stated m url =
     (case after_marker m url of
        None \<Rightarrow> None
      | Some rest \<Rightarrow> (if cut_query rest = [] then None else Some (cut_query rest)))"

text \<open>The same, with the segment also ending at the next occurrence of the marker.\<close>

definition shape_amended :: "string \<Rightarrow> string \<Rightarrow> string option" where
  "shape_amended m url =
     (case after_marker m url of
        None \<Rightarrow> None
      | Some rest \<Rightarrow>
          (if cut_query (before_marker m rest) = [] then None
           else Some (cut_query (before_marker m rest))))"

definition resolve_with ::
  "(string \<Rightarrow> string \<Rightarrow> string option) \<Rightarrow> string \<Rightarrow> string \<Rightarrow> string" where
  "resolve_with shape url fallbackId =
     (case shape ''embed/'' url of
        Some i \<Rightarrow> i
      | None \<Rightarrow>
          (case shape ''watch?v='' url of
             Some i \<Rightarrow> i
           | None \<Rightarrow>
               (case shape ''youtu.be/'' url of
                  Some i \<Rightarrow> i
                | None \<Rightarrow> fallbackId)))"

definition resolve_stated :: "string \<Rightarrow> string \<Rightarrow> string" where
  "resolve_stated = resolve_with shape_stated"

definition resolve_amended :: "string \<Rightarrow> string \<Rightarrow> string" where
  "resolve_amended = resolve_with shape_amended"

text \<open>A marker occurs at most once in a URL.\<close>

definition single_occurrence :: "string \<Rightarrow> string \<Rightarrow> bool" where
  "single_occurrence m url =
     (case after_marker m url of None \<Rightarrow> True | Some rest \<Rightarrow> after_marker m rest = None)"

subsection \<open>Sample data\<close>

definition clip :: VideoItem where
  "clip = \<lparr> item_id = ''v1'', slug = ''clip'', category_slug = ''dinos'',
     mediaType = ''VIDEO'', mediaUrl = ''https://cdn.example/clip.mp4'',
     durationSeconds = 100 \<rparr>"

definition tube :: VideoItem where
  "tube = \<lparr> item_id = ''v2'', slug = ''tube'', category_slug = ''dinos'',
     mediaType = ''YOUTUBE'', mediaUrl = ''https://www.youtube.com/embed/abc123?x=1'',
     durationSeconds = 50 \<rparr>"

definition lone :: VideoItem where
  "lone = \<lparr> item_id = ''v3'', slug = ''lone'', category_slug = ''birds'',
     mediaType = ''VIDEO'', mediaUrl = ''https://cdn.example/lone.mp4'',
     durationSeconds = 30 \<rparr>"

definition live :: VideoItem where
  "live = \<lparr> item_id = ''v4'', slug = ''live'', category_slug = ''streams'',
     mediaType = ''YOUTUBE'', mediaUrl = ''https://youtu.be/qrs456'',
     durationSeconds = 0 \<rparr>"

definition catalog2 :: Catalog where
  "catalog2 = \<lparr> allVideos = [clip, tube, lone],
     categoryGroups = [\<lparr> group_slug = ''dinos'', contents = [clip, tube] \<rparr>,
                       \<lparr> group_slug = ''birds'', contents = [lone] \<rparr>] \<rparr>"

definition catalog1 :: Catalog where
  "catalog1 = \<lparr> allVideos = [clip, tube],
     categoryGroups = [\<lparr> group_slug = ''dinos'', contents = [clip, tube] \<rparr>] \<rparr>"

definition catalog3 :: Catalog where
  "catalog3 = \<lparr> allVideos = [clip, tube, lone],
     categoryGroups = [\<lparr> group_slug = ''dinos'', contents = [clip] \<rparr>,
                       \<lparr> group_slug = ''tubes'', contents = [tube] \<rparr>,
                       \<lparr> group_slug = ''birds'', contents = [lone] \<rparr>] \<rparr>"

text \<open>Sessions reached from the initial state, used to instantiate the properties.\<close>

definition freshNative :: AppState where
  "freshNative = run catalog2 [PlayVideo clip] init"

definition nativeSession :: AppState where
  "nativeSession =
     run catalog2 [PlayVideo clip, VideoLoadedMetadata 100,
       VideoProgress \<lparr> el_currentTime = 95, el_paused = False \<rparr>] init"

definition embedSession :: AppState where
  "embedSession =
     run catalog2 [YtApiReady, PlayVideo tube, YtReady,
       YtProgress \<lparr> yt_time = 3, yt_duration = 50, yt_seek_throws = False \<rparr>] init"



definition pendingEmbed :: AppState where
  "pendingEmbed = run catalog2 [YtApiReady, PlayVideo tube] init"

definition liveSession :: AppState where
  "liveSession = run catalog2 [YtApiReady, PlayVideo live, YtReady] init"

section \<open>Properties\<close>

subsection \<open>What rendering and the effects leave alone\<close>

lemma hooks_mountVideo: "hooks (mountVideo a) = hooks a"
  by (simp add: hooks_def mountVideo_def)

lemma hooks_autoplayEffect: "hooks (autoplayEffect p c a) = hooks a"
  by (simp add: hooks_def autoplayEffect_def split: option.splits)

lemma hooks_createPlayerEffect: "hooks (createPlayerEffect p c a) = hooks a"
  by (simp add: hooks_def createPlayerEffect_def)

lemma hooks_pollingEffect: "hooks (pollingEffect p c a) = hooks a"
  by (simp add: hooks_def pollingEffect_def)

lemma hooks_countdownEffect_idle:
  "\<not> countdownDue p c \<Longrightarrow> hooks (countdownEffect p c a) = hooks a"
  by (auto simp: hooks_def countdownEffect_def countdownDue_def clearCountdownTimer_def Let_def
      split: option.splits)

lemma hooks_countdownEffect_due:
  "countdownDue p c \<Longrightarrow> nextCountdown c = Some cd \<Longrightarrow>
   hooks (countdownEffect p c a) = hooks (playVideo (nextVideo cd) a)"
  by (auto simp: hooks_def countdownEffect_def countdownDue_def clearCountdownTimer_def Let_def
      playVideo_def split: option.splits)

lemma hooks_playVideo_cong: "hooks a = hooks b \<Longrightarrow> hooks (playVideo v a) = hooks (playVideo v b)"
  by (simp add: hooks_def playVideo_def)

lemma hooks_runEffects_idle: "\<not> countdownDue p c \<Longrightarrow> hooks (runEffects p c) = hooks c"
  by (simp add: runEffects_def hooks_pollingEffect hooks_createPlayerEffect
      hooks_countdownEffect_idle hooks_autoplayEffect hooks_mountVideo)

lemma hooks_runEffects_due:
  assumes d: "countdownDue p c" and n: "nextCountdown c = Some cd"
  shows "hooks (runEffects p c) = hooks (playVideo (nextVideo cd) c)"
proof -
  have "hooks (runEffects p c) =
        hooks (playVideo (nextVideo cd) (autoplayEffect p c (mountVideo c)))"
    by (simp add: runEffects_def hooks_pollingEffect hooks_createPlayerEffect
        hooks_countdownEffect_due[OF d n])
  also have "\<dots> = hooks (playVideo (nextVideo cd) c)"
    by (rule hooks_playVideo_cong) (simp add: hooks_autoplayEffect hooks_mountVideo)
  finally show ?thesis .
qed

lemma nextCountdown_hooks: "hooks a = hooks b \<Longrightarrow> nextCountdown a = nextCountdown b"
  by (simp add: hooks_def)

lemma second_round_idle: "\<not> countdownDue (mountVideo c) (runEffects p c)"
proof (cases "countdownDue p c")
  case True
  then obtain cd where n: "nextCountdown c = Some cd"
    by (auto simp: countdownDue_def split: option.splits)
  have "nextCountdown (runEffects p c) = nextCountdown (playVideo (nextVideo cd) c)"
    by (rule nextCountdown_hooks) (rule hooks_runEffects_due[OF True n])
  then show ?thesis by (simp add: countdownDue_def playVideo_def)
next
  case False
  have "nextCountdown (runEffects p c) = nextCountdown c"
    by (rule nextCountdown_hooks) (rule hooks_runEffects_idle[OF False])
  then show ?thesis by (simp add: countdownDue_def mountVideo_def)
qed

lemma hooks_commit: "hooks (commit p c) = hooks (runEffects p c)"
  by (simp add: commit_def Let_def hooks_runEffects_idle[OF second_round_idle])

lemma hooks_commit_idle: "\<not> countdownDue p c \<Longrightarrow> hooks (commit p c) = hooks c"
  by (simp add: hooks_commit hooks_runEffects_idle)

lemma hooks_commit_due:
  "countdownDue p c \<Longrightarrow> nextCountdown c = Some cd \<Longrightarrow>
   hooks (commit p c) = hooks (playVideo (nextVideo cd) c)"
  by (simp add: hooks_commit hooks_runEffects_due)

lemma hooks_fields:
  assumes "hooks a = hooks b"
  shows "activeVideo a = activeVideo b" and "playerMode a = playerMode b"
    and "isPlaying a = isPlaying b" and "currentTime a = currentTime b"
    and "duration a = duration b" and "relatedOpen a = relatedOpen b"
    and "dragOffset a = dragOffset b" and "isDragging a = isDragging b"
    and "skipIndicator a = skipIndicator b" and "nextCountdown a = nextCountdown b"
    and "visibleCategoryCount a = visibleCategoryCount b" and "ytReady a = ytReady b"
    and "ytLoaded a = ytLoaded b" and "dragStartY a = dragStartY b"
    and "touchStartY a = touchStartY b" and "nextObj a = nextObj b"
  using assms by (simp_all add: hooks_def)

subsection \<open>Opening an item\<close>

lemma playVideo_idle: "\<not> countdownDue st (playVideo item st)"
  by (simp add: countdownDue_def playVideo_def)

lemma hooks_step_PlayVideo: "hooks (step cat (PlayVideo item) st) = hooks (playVideo item st)"
  by (simp add: step_def handle_def hooks_commit_idle[OF playVideo_idle])

text \<open>
  Claim C8. Opening an item, from any presentation mode, puts the player in full mode,
  resets the current time and the duration to 0, clears the countdown and closes the
  related sheet. This holds for the handler \<open>playVideo\<close> and for the whole step, after
  the render and the effects that follow it; the opened item is then the active one.
\<close>

theorem playVideo_resets:
  "playerMode (playVideo item st) = Full \<and>
   currentTime (playVideo item st) = 0 \<and>
   duration (playVideo item st) = 0 \<and>
   nextCountdown (playVideo item st) = None \<and>
   relatedOpen (playVideo item st) = False \<and>
   activeVideo (playVideo item st) = Some item \<and>
   playerMode (step cat (PlayVideo item) st) = Full \<and>
   currentTime (step cat (PlayVideo item) st) = 0 \<and>
   duration (step cat (PlayVideo item) st) = 0 \<and>
   nextCountdown (step cat (PlayVideo item) st) = None \<and>
   relatedOpen (step cat (PlayVideo item) st) = False \<and>
   activeVideo (step cat (PlayVideo item) st) = Some item"
proof -
  have h: "playerMode (playVideo item st) = Full \<and>
      currentTime (playVideo item st) = 0 \<and>
      duration (playVideo item st) = 0 \<and>
      nextCountdown (playVideo item st) = None \<and>
      relatedOpen (playVideo item st) = False \<and>
      activeVideo (playVideo item st) = Some item"
    by (simp add: playVideo_def)
  note f = hooks_fields[OF hooks_step_PlayVideo[of cat item st]]
  show ?thesis using h by (simp add: f)
qed

theorem playVideo_resets_witness:
  "playerMode (playVideo tube (closePlayer init)) = Full \<and>
   currentTime (step catalog2 (PlayVideo tube) (closePlayer init)) = 0 \<and>
   nextCountdown (step catalog2 (PlayVideo tube) (closePlayer init)) = None"
  using playVideo_resets[of tube "closePlayer init" catalog2] by simp

subsection \<open>Evaluating the model on concrete sessions\<close>

lemmas model_defs =
  step_def handle_def commit_def runEffects_def pollingEffect_def createPlayerEffect_def
  countdownEffect_def autoplayEffect_def mountVideo_def clearCountdownTimer_def
  playVideo_def closePlayer_def isYouTube_def ytPath_def init_def Let_def
  onReady_def onStateChange_def onLoadedMetadata_def onTimeUpdate_def ytGetDuration_def
  or_num_def activeDurationSeconds_def newPlayer_def
  handlePlayerPointerDown_def handlePlayerPointerMove_def handlePlayerPointerUp_def
  handleWheel_def handleTouchStart_def handleTouchEnd_def handleMiniRestore_def
  fireTimer_def runTimer_def


lemma nativeSession_fields:
  "videoRef nativeSession = Some \<lparr> el_currentTime = 95, el_paused = False \<rparr>"
  "currentTime nativeSession = 0" "duration nativeSession = 100"
  "activeVideo nativeSession = Some clip" "ytPath nativeSession = False"
  by (simp_all add: nativeSession_def model_defs clip_def)

lemma embedSession_fields:
  "ytPlayerRef embedSession = Some \<lparr> yt_time = 3, yt_duration = 50, yt_seek_throws = False \<rparr>"
  "videoRef embedSession = None" "duration embedSession = 0"
  "activeVideo embedSession = Some tube" "ytPath embedSession = True"
  by (simp_all add: embedSession_def model_defs tube_def)


subsection \<open>Skipping and seeking\<close>

lemma or_num_0: "or_num x 0 = x"
  by (simp add: or_num_def)

lemma clamp_in_range: "lo \<le> hi \<Longrightarrow> lo \<le> clamp x lo hi \<and> clamp x lo hi \<le> hi"
  by (simp add: clamp_def)

text \<open>
  Claim C1, as amended. \<open>skipBy a\<close> moves the playback position of the backend to
  \<open>clamp (position + a) 0 D\<close>, where \<open>D\<close> is the first non-zero value among the
  embedded player's own duration (embedded backend only), the \<open>duration\<close> state and the
  catalog's \<open>durationSeconds\<close> of the active item. On the embedded backend the
  \<open>currentTime\<close> state is set to the same value, and nothing happens when \<open>D\<close> is 0;
  nothing happens either when no backend handle is available.
\<close>

theorem skipBy_clamps:
  "(\<not> ytPath st \<and> videoRef st = Some video \<longrightarrow>
      videoRef (skipBy a st) =
        Some (video\<lparr> el_currentTime :=
                clamp (el_currentTime video + a) 0 (fallbackDuration st) \<rparr>)) \<and>
   (ytPath st \<and> ytPlayerRef st = Some player \<and> \<not> yt_seek_throws player \<and>
    ytTotal player st \<noteq> 0 \<longrightarrow>
      ytPlayerRef (skipBy a st) =
        Some (player\<lparr> yt_time := clamp (yt_time player + a) 0 (ytTotal player st) \<rparr>) \<and>
      currentTime (skipBy a st) = clamp (yt_time player + a) 0 (ytTotal player st)) \<and>
   (ytPath st \<and> ytPlayerRef st = Some player \<and> ytTotal player st = 0 \<longrightarrow>
      skipBy a st = st) \<and>
   (\<not> ytPath st \<and> videoRef st = None \<longrightarrow> skipBy a st = st)"
  by (simp add: skipBy_def clamp_def fallbackDuration_def ytTotal_def or_num_0 Let_def
      max.commute)

lemma pendingEmbed_fields:
  "videoRef pendingEmbed = None" "ytPath pendingEmbed = False"
  "currentTime pendingEmbed = 0" "ytLoaded pendingEmbed = False"
  by (simp_all add: pendingEmbed_def model_defs tube_def)

lemma liveSession_fields:
  "ytPlayerRef liveSession = Some newPlayer" "ytPath liveSession = True"
  "duration liveSession = 0" "activeVideo liveSession = Some live"
  by (simp_all add: liveSession_def model_defs live_def)

theorem skipBy_clamps_witness:
  "\<not> ytPath nativeSession \<and>
   map_option el_currentTime (videoRef (skipBy 10 nativeSession)) = Some 100 \<and>
   ytPath embedSession \<and>
   map_option yt_time (ytPlayerRef (skipBy (- 10) embedSession)) = Some 0 \<and>
   currentTime (skipBy (- 10) embedSession) = 0 \<and>
   ytPath liveSession \<and> ytTotal newPlayer liveSession = 0 \<and>
   skipBy 10 liveSession = liveSession \<and>
   \<not> ytPath pendingEmbed \<and> videoRef pendingEmbed = None \<and>
   skipBy 10 pendingEmbed = pendingEmbed"
proof -
  have z: "ytTotal newPlayer liveSession = 0"
    by (simp add: ytTotal_def fallbackDuration_def or_num_def activeDurationSeconds_def
        liveSession_fields newPlayer_def live_def)
  show ?thesis
    using skipBy_clamps[where st = nativeSession and a = 10
        and video = "\<lparr> el_currentTime = 95, el_paused = False \<rparr>"]
      skipBy_clamps[where st = embedSession and a = "- 10"
        and player = "\<lparr> yt_time = 3, yt_duration = 50, yt_seek_throws = False \<rparr>"]
      skipBy_clamps[where st = liveSession and a = 10 and player = newPlayer]
      skipBy_clamps[where st = pendingEmbed and a = 10] z
    by (simp add: nativeSession_fields embedSession_fields liveSession_fields
        pendingEmbed_fields clamp_def fallbackDuration_def ytTotal_def or_num_def
        activeDurationSeconds_def)
qed

text \<open>
  The claim as stated takes the \<open>duration\<close> of the session as the upper bound. Right
  after a non-embedded item is opened the duration is still 0 and the position is 0;
  skipping by 10 moves the position to 10, not to \<open>clamp (0 + 10) 0 0 = 0\<close>.
\<close>

theorem skipBy_duration_counterexample:
  "currentTime freshNative = 0 \<and> duration freshNative = 0 \<and>
   map_option el_currentTime (videoRef freshNative) = Some 0 \<and>
   map_option el_currentTime (videoRef (step catalog2 (SkipBy 10) freshNative)) = Some 10 \<and>
   map_option el_currentTime (videoRef (step catalog2 (SkipBy 10) freshNative))
     \<noteq> Some (clamp (currentTime freshNative + 10) 0 (duration freshNative))"
  by (simp add: freshNative_def model_defs clip_def skipBy_def clamp_def)

text \<open>
  Claim C10. Seeking applies no clamping: whenever the handler reaches a backend (the
  media element is mounted, or the embedded player exists, its controls are enabled
  and \<open>seekTo\<close> does not throw), the position of the backend and the \<open>currentTime\<close>
  state both become exactly the requested value, whatever it is.
\<close>

theorem handleSeek_no_clamp:
  "(\<not> ytPath st \<and> videoRef st = Some video \<longrightarrow>
      videoRef (handleSeek v st) = Some (video\<lparr> el_currentTime := v \<rparr>) \<and>
      currentTime (handleSeek v st) = v) \<and>
   (ytPath st \<and> ytPlayerRef st = Some player \<and> \<not> yt_seek_throws player \<longrightarrow>
      ytPlayerRef (handleSeek v st) = Some (player\<lparr> yt_time := v \<rparr>) \<and>
      currentTime (handleSeek v st) = v)"
  by (simp add: handleSeek_def)

theorem handleSeek_no_clamp_witness:
  "duration nativeSession = 100 \<and>
   map_option el_currentTime (videoRef (handleSeek 250 nativeSession)) = Some 250 \<and>
   currentTime (handleSeek 250 nativeSession) = 250 \<and>
   map_option yt_time (ytPlayerRef (handleSeek (- 5) embedSession)) = Some (- 5) \<and>
   currentTime (handleSeek (- 5) embedSession) = - 5 \<and>
   map_option el_currentTime (videoRef (skipBy 250 nativeSession)) = Some 100"
  using handleSeek_no_clamp[where st = nativeSession and v = 250
      and video = "\<lparr> el_currentTime = 95, el_paused = False \<rparr>"]
    handleSeek_no_clamp[where st = embedSession and v = "- 5"
      and player = "\<lparr> yt_time = 3, yt_duration = 50, yt_seek_throws = False \<rparr>"]
  by (simp add: nativeSession_fields embedSession_fields skipBy_def or_num_def)

subsection \<open>Releasing a drag\<close>







subsection \<open>The resolver\<close>

lemma includes_str_after_marker: "includes_str m s \<longleftrightarrow> after_marker m s \<noteq> None"
  by (induction s) auto

lemma before_marker_none: "after_marker m s = None \<Longrightarrow> before_marker m s = s"
  by (induction s) (auto split: if_splits)

lemma split_str_unfold:
  "m \<noteq> [] \<Longrightarrow>
   split_str m acc s =
     (case after_marker m s of
        None \<Rightarrow> [rev acc @ s]
      | Some rest \<Rightarrow> (rev acc @ before_marker m s) # split_str m [] rest)"
proof (induction m acc s rule: split_str.induct)
  case (1 sep acc)
  then show ?case by simp
next
  case (2 sep acc c cs)
  show ?case
  proof (cases "prefix sep (c # cs)")
    case True
    with 2 show ?thesis by simp
  next
    case False
    with 2 show ?thesis by (simp split: option.splits)
  qed
qed

lemma split_str_first:
  assumes "m \<noteq> []"
  shows "\<exists>t. split_str m [] s = before_marker m s # t"
proof (cases "after_marker m s")
  case None
  then show ?thesis using split_str_unfold[OF assms, of "[]" s] before_marker_none[OF None] by simp
next
  case (Some rest)
  then show ?thesis using split_str_unfold[OF assms, of "[]" s] by simp
qed

lemma split_class_first:
  "\<exists>t. split_class P acc s = (rev acc @ takeWhile (\<lambda>c. \<not> P c) s) # t"
proof (induction s arbitrary: acc)
  case Nil
  show ?case by simp
next
  case (Cons a s)
  show ?case
  proof (cases "P a")
    case True
    then show ?thesis by simp
  next
    case False
    then show ?thesis using Cons[of "a # acc"] by simp
  qed
qed

lemma at_index_Cons_0: "at_index (x # xs) 0 = Some x"
  by (simp add: at_index_def)

lemma at_index_Cons_1: "at_index (x # xs) (Suc 0) = at_index xs 0"
  by (simp add: at_index_def)

lemma at_index_single_1: "at_index [x] (Suc 0) = None"
  by (simp add: at_index_def)

lemma id_after_eq:
  assumes m: "m \<noteq> []"
  shows "id_after m url =
     (case after_marker m url of
        None \<Rightarrow> None
      | Some rest \<Rightarrow> Some (cut_query (before_marker m rest)))"
proof (cases "after_marker m url")
  case None
  then show ?thesis
    using split_str_unfold[OF m, of "[]" url]
    by (simp add: id_after_def js_split_def m at_index_single_1)
next
  case (Some rest)
  obtain t where t: "split_str m [] rest = before_marker m rest # t"
    using split_str_first[OF m] by blast
  obtain u where u: "split_class query_sep [] (before_marker m rest) =
      cut_query (before_marker m rest) # u"
    using split_class_first[of query_sep "[]" "before_marker m rest"]
    by (auto simp: cut_query_def)
  show ?thesis
    using split_str_unfold[OF m, of "[]" url] Some t u
    by (simp add: id_after_def js_split_def m at_index_Cons_1 at_index_Cons_0)
qed

lemma shape_amended_eq:
  assumes m: "m \<noteq> []"
  shows "shape_amended m url =
    (if includes_str m url \<and> truthy (id_after m url) then id_after m url else None)"
  by (simp add: shape_amended_def id_after_eq[OF m] includes_str_after_marker truthy_def
      split: option.splits)

lemma getYouTubeId_refines: "getYouTubeId url fb = resolve_amended url fb"
proof -
  have a: "shape_amended ''embed/'' url =
      (if includes_str ''embed/'' url \<and> truthy (id_after ''embed/'' url)
       then id_after ''embed/'' url else None)"
    by (rule shape_amended_eq) simp
  have b: "shape_amended ''watch?v='' url =
      (if includes_str ''watch?v='' url \<and> truthy (id_after ''watch?v='' url)
       then id_after ''watch?v='' url else None)"
    by (rule shape_amended_eq) simp
  have c: "shape_amended ''youtu.be/'' url =
      (if includes_str ''youtu.be/'' url \<and> truthy (id_after ''youtu.be/'' url)
       then id_after ''youtu.be/'' url else None)"
    by (rule shape_amended_eq) simp
  show ?thesis
    unfolding getYouTubeId_def resolve_amended_def resolve_with_def a b c
    by (auto simp: truthy_def split: option.splits)
qed

lemma shape_single:
  "single_occurrence m url \<Longrightarrow> shape_amended m url = shape_stated m url"
  by (auto simp: single_occurrence_def shape_amended_def shape_stated_def before_marker_none
      split: option.splits)

lemmas resolve_eval =
  resolve_amended_def resolve_stated_def resolve_with_def shape_amended_def shape_stated_def
  cut_query_def query_sep_def

text \<open>
  Claim C2, as amended. \<open>getYouTubeId\<close> tries, in order, the text after the first
  \<open>embed/\<close>, after the first \<open>watch?v=\<close> and after the first \<open>youtu.be/\<close>, each cut at
  the next occurrence of the same marker and then at the first \<open>?\<close> or \<open>&\<close>, and
  returns the fallback when no shape matches or the segment is empty. When no marker
  occurs twice this is the resolver exactly as the specification words it. The four
  example URLs resolve as stated. The function is total and has no effect.
\<close>

theorem getYouTubeId_resolves:
  "getYouTubeId url fallbackId = resolve_amended url fallbackId \<and>
   (single_occurrence ''embed/'' url \<and> single_occurrence ''watch?v='' url \<and>
    single_occurrence ''youtu.be/'' url \<longrightarrow>
      getYouTubeId url fallbackId = resolve_stated url fallbackId) \<and>
   getYouTubeId ''https://www.youtube.com/embed/abc123?x=1'' fallbackId = ''abc123'' \<and>
   getYouTubeId ''https://www.youtube.com/watch?v=xyz789&t=5'' fallbackId = ''xyz789'' \<and>
   getYouTubeId ''youtu.be/qrs456'' fallbackId = ''qrs456'' \<and>
   getYouTubeId ''https://example.com/video'' fallbackId = fallbackId"
proof -
  have stated: "getYouTubeId url fallbackId = resolve_stated url fallbackId"
    if "single_occurrence ''embed/'' url" "single_occurrence ''watch?v='' url"
      "single_occurrence ''youtu.be/'' url"
  proof -
    have a: "shape_amended ''embed/'' url = shape_stated ''embed/'' url"
      and b: "shape_amended ''watch?v='' url = shape_stated ''watch?v='' url"
      and c: "shape_amended ''youtu.be/'' url = shape_stated ''youtu.be/'' url"
      using that by (simp_all add: shape_single)
    show ?thesis
      by (simp only: getYouTubeId_refines resolve_amended_def resolve_stated_def
          resolve_with_def a b c)
  qed
  have e1: "getYouTubeId ''https://www.youtube.com/embed/abc123?x=1'' fallbackId = ''abc123''"
    by (simp add: getYouTubeId_refines resolve_eval)
  have e2: "getYouTubeId ''https://www.youtube.com/watch?v=xyz789&t=5'' fallbackId = ''xyz789''"
    by (simp add: getYouTubeId_refines resolve_eval)
  have e3: "getYouTubeId ''youtu.be/qrs456'' fallbackId = ''qrs456''"
    by (simp add: getYouTubeId_refines resolve_eval)
  have e4: "getYouTubeId ''https://example.com/video'' fallbackId = fallbackId"
    by (simp add: getYouTubeId_refines resolve_eval)
  show ?thesis using getYouTubeId_refines[of url fallbackId] stated e1 e2 e3 e4 by blast
qed

theorem getYouTubeId_resolves_witness:
  "single_occurrence ''embed/'' ''https://youtu.be/qrs456?t=9'' \<and>
   single_occurrence ''watch?v='' ''https://youtu.be/qrs456?t=9'' \<and>
   single_occurrence ''youtu.be/'' ''https://youtu.be/qrs456?t=9'' \<and>
   getYouTubeId ''https://youtu.be/qrs456?t=9'' ''tube'' = ''qrs456'' \<and>
   resolve_stated ''https://youtu.be/qrs456?t=9'' ''tube'' = ''qrs456''"
  using getYouTubeId_resolves[of "''https://youtu.be/qrs456?t=9''" "''tube''"]
  by (simp add: single_occurrence_def resolve_eval)

text \<open>
  As stated, the segment after a marker is cut only at the first \<open>?\<close> or \<open>&\<close>. The code
  cuts it at the next occurrence of the marker as well.
\<close>

theorem getYouTubeId_repeated_marker_counterexample:
  "getYouTubeId ''https://www.youtube.com/embed/abc123/embed/x'' ''fallback'' = ''abc123/'' \<and>
   resolve_stated ''https://www.youtube.com/embed/abc123/embed/x'' ''fallback''
     = ''abc123/embed/x'' \<and>
   getYouTubeId ''https://www.youtube.com/embed/abc123/embed/x'' ''fallback''
     \<noteq> resolve_stated ''https://www.youtube.com/embed/abc123/embed/x'' ''fallback''"
  by (simp add: getYouTubeId_refines resolve_eval)

subsection \<open>Enabling the embedded controls\<close>

lemmas handler_defs =
  playVideo_def closePlayer_def togglePlay_def skipBy_def handleSeek_def
  handlePlayerPointerDown_def handlePlayerPointerMove_def handlePlayerPointerUp_def
  handleWheel_def handleTouchStart_def handleTouchEnd_def handleVideoEnded_def
  handleMiniRestore_def onReady_def onStateChange_def pollTick_def onTimeUpdate_def
  onLoadedMetadata_def onIntersect_def fireTimer_def runTimer_def

lemma ytLoaded_handle:
  "ytLoaded (handle cat e st) \<Longrightarrow> ytLoaded st \<or> e = YtReady \<or> e = YtStateChange PLAYING"
  by (cases e)
    (auto simp: handle_def handler_defs Let_def
      split: option.splits if_splits YTState.splits TimerAction.splits)

lemma ytLoaded_commit: "ytLoaded (commit p c) \<Longrightarrow> ytLoaded c"
proof (cases "countdownDue p c")
  case True
  then obtain cd where n: "nextCountdown c = Some cd"
    by (auto simp: countdownDue_def split: option.splits)
  assume "ytLoaded (commit p c)"
  then show ?thesis
    using hooks_fields(13)[OF hooks_commit_due[OF True n]] by (simp add: playVideo_def)
next
  case False
  assume "ytLoaded (commit p c)"
  then show ?thesis using hooks_fields(13)[OF hooks_commit_idle[OF False]] by simp
qed

lemma ytLoaded_step:
  "ytLoaded (step cat e st) \<Longrightarrow> ytLoaded st \<or> e = YtReady \<or> e = YtStateChange PLAYING"
  unfolding step_def by (blast dest: ytLoaded_commit ytLoaded_handle)

lemma ytLoaded_run:
  "ytLoaded (run cat es st) \<Longrightarrow>
   ytLoaded st \<or> (\<exists>e\<in>set es. e = YtReady \<or> e = YtStateChange PLAYING)"
proof (induction es arbitrary: st)
  case Nil
  then show ?case by simp
next
  case (Cons e es)
  from Cons.prems have "ytLoaded (run cat es (step cat e st))" by simp
  from Cons.IH[OF this] show ?case
    using ytLoaded_step[of cat e st] by auto
qed

lemma hooks_step_YtReady: "hooks (step cat YtReady s) = hooks (onReady s)"
proof -
  have "\<not> countdownDue s (onReady s)" by (simp add: countdownDue_def onReady_def)
  then show ?thesis by (simp add: step_def handle_def hooks_commit_idle)
qed

lemma hooks_step_YtPlaying:
  "hooks (step cat (YtStateChange PLAYING) s) = hooks (onStateChange cat PLAYING s)"
proof -
  have "\<not> countdownDue s (onStateChange cat PLAYING s)"
    by (simp add: countdownDue_def onStateChange_def)
  then show ?thesis by (simp add: step_def handle_def hooks_commit_idle)
qed

text \<open>
  Claim C5, as amended. After an item is opened, \<open>ytLoaded\<close> stays false, and the
  controls of an embedded item stay disabled, as long as neither the player's
  \<open>onReady\<close> nor a \<open>PLAYING\<close> state change has been observed, whatever else happens.
  Each of these two events sets \<open>ytLoaded\<close>.
\<close>

theorem ytLoaded_only_after_ready_or_playing:
  "((\<forall>e\<in>set es. e \<noteq> YtReady \<and> e \<noteq> YtStateChange PLAYING) \<longrightarrow>
      \<not> ytLoaded (run cat es (step cat (PlayVideo item) st)) \<and>
      (isYouTube (run cat es (step cat (PlayVideo item) st)) \<longrightarrow>
         ytControlsDisabled (run cat es (step cat (PlayVideo item) st)))) \<and>
   ytLoaded (step cat YtReady s) \<and>
   ytLoaded (step cat (YtStateChange PLAYING) s)"
proof -
  have fresh: "\<not> ytLoaded (step cat (PlayVideo item) st)"
    using hooks_fields(13)[OF hooks_step_PlayVideo[of cat item st]] by (simp add: playVideo_def)
  have quiet: "\<not> ytLoaded (run cat es (step cat (PlayVideo item) st))"
    if "\<forall>e\<in>set es. e \<noteq> YtReady \<and> e \<noteq> YtStateChange PLAYING"
    using ytLoaded_run[of cat es "step cat (PlayVideo item) st"] fresh that by blast
  have r: "ytLoaded (step cat YtReady s)"
    using hooks_fields(13)[OF hooks_step_YtReady[of cat s]] by (simp add: onReady_def)
  have pl: "ytLoaded (step cat (YtStateChange PLAYING) s)"
    using hooks_fields(13)[OF hooks_step_YtPlaying[of cat s]] by (simp add: onStateChange_def)
  show ?thesis using quiet r pl by (simp add: ytControlsDisabled_def)
qed

theorem ytLoaded_only_after_ready_or_playing_witness:
  "\<not> ytLoaded (run catalog2 [YtApiReady, YtStateChange OTHER, TogglePlay]
       (step catalog2 (PlayVideo tube) init)) \<and>
   ytControlsDisabled (run catalog2 [YtApiReady, YtStateChange OTHER, TogglePlay]
       (step catalog2 (PlayVideo tube) init)) \<and>
   ytLoaded (step catalog2 YtReady (step catalog2 (PlayVideo tube) init))"
proof -
  have y: "isYouTube (run catalog2 [YtApiReady, YtStateChange OTHER, TogglePlay]
       (step catalog2 (PlayVideo tube) init))"
    by (simp add: model_defs togglePlay_def tube_def)
  show ?thesis
    using ytLoaded_only_after_ready_or_playing[of
        "[YtApiReady, YtStateChange OTHER, TogglePlay]" catalog2 tube init
        "step catalog2 (PlayVideo tube) init"] y
    by simp
qed

text \<open>
  As stated, only a playing event enables the controls. The player's \<open>onReady\<close> callback
  enables them too, before any playing event.
\<close>

theorem ytLoaded_on_ready_counterexample:
  "ytLoaded (run catalog2 [YtApiReady, PlayVideo tube, YtReady] init) \<and>
   \<not> ytControlsDisabled (run catalog2 [YtApiReady, PlayVideo tube, YtReady] init) \<and>
   YtStateChange PLAYING \<notin> set [YtApiReady, PlayVideo tube, YtReady]"
  by (simp add: model_defs ytControlsDisabled_def tube_def)

subsection \<open>Revealing the feed\<close>

lemma vcc_handle:
  "visibleCategoryCount (handle cat e st) =
     (if e = Intersect True \<and> sentinelRendered cat st
      then visibleCategoryCount st + 1 else visibleCategoryCount st)"
  by (cases e)
    (auto simp: handle_def handler_defs sentinelRendered_def Let_def
      split: option.splits if_splits YTState.splits TimerAction.splits)

lemma vcc_commit: "visibleCategoryCount (commit p c) = visibleCategoryCount c"
proof (cases "countdownDue p c")
  case True
  then obtain cd where n: "nextCountdown c = Some cd"
    by (auto simp: countdownDue_def split: option.splits)
  show ?thesis
    using hooks_fields(11)[OF hooks_commit_due[OF True n]] by (simp add: playVideo_def)
next
  case False
  show ?thesis using hooks_fields(11)[OF hooks_commit_idle[OF False]] by simp
qed

lemma vcc_step:
  "visibleCategoryCount (step cat e st) =
     (if e = Intersect True \<and> sentinelRendered cat st
      then visibleCategoryCount st + 1 else visibleCategoryCount st)"
  by (simp add: step_def vcc_commit vcc_handle)

lemma vcc_run_bound:
  "visibleCategoryCount st \<le> max 2 (length (categoryGroups cat)) \<Longrightarrow>
   visibleCategoryCount (run cat es st) \<le> max 2 (length (categoryGroups cat))"
proof (induction es arbitrary: st)
  case Nil
  then show ?case by simp
next
  case (Cons e es)
  have "visibleCategoryCount (step cat e st) \<le> max 2 (length (categoryGroups cat))"
    using Cons.prems by (auto simp: vcc_step sentinelRendered_def)
  from Cons.IH[OF this] show ?case by simp
qed

text \<open>
  Claim C9, as amended. The revealed count starts at 2; an intersection of the
  sentinel, which is rendered only below the cap, adds exactly 1; no event makes the
  count smaller; the count never exceeds the larger of 2 and the number of category
  groups, hence never the number of groups when there are at least 2; and the
  sentinel is not rendered once the count has reached the number of groups, after
  which the count no longer changes.
\<close>

theorem revealedCount_monotone_capped:
  "visibleCategoryCount init = 2 \<and>
   (sentinelRendered cat st \<longrightarrow>
      visibleCategoryCount (step cat (Intersect True) st) = visibleCategoryCount st + 1) \<and>
   visibleCategoryCount st \<le> visibleCategoryCount (step cat e st) \<and>
   visibleCategoryCount (run cat es init) \<le> max 2 (length (categoryGroups cat)) \<and>
   (2 \<le> length (categoryGroups cat) \<longrightarrow>
      visibleCategoryCount (run cat es init) \<le> length (categoryGroups cat)) \<and>
   (length (categoryGroups cat) \<le> visibleCategoryCount st \<longrightarrow>
      \<not> sentinelRendered cat st \<and>
      visibleCategoryCount (step cat e st) = visibleCategoryCount st)"
proof -
  have i: "visibleCategoryCount init = 2" by (simp add: init_def)
  have b: "visibleCategoryCount (run cat es init) \<le> max 2 (length (categoryGroups cat))"
    by (rule vcc_run_bound) (simp add: i)
  show ?thesis using i b by (auto simp: vcc_step sentinelRendered_def)
qed

theorem revealedCount_monotone_capped_witness:
  "sentinelRendered catalog3 init \<and>
   visibleCategoryCount (step catalog3 (Intersect True) init) = 3 \<and>
   visibleCategoryCount (run catalog3 [Intersect True, Intersect True] init) \<le> 3 \<and>
   \<not> sentinelRendered catalog3 (step catalog3 (Intersect True) init) \<and>
   visibleCategoryCount (step catalog3 (Intersect True) (step catalog3 (Intersect True) init)) = 3"
proof -
  have n: "length (categoryGroups catalog3) = 3" by (simp add: catalog3_def)
  have r: "sentinelRendered catalog3 init" by (simp add: sentinelRendered_def init_def n)
  have one: "visibleCategoryCount (step catalog3 (Intersect True) init) = 3"
    using revealedCount_monotone_capped[of catalog3 init "Intersect True" "[]"] r by simp
  show ?thesis
    using revealedCount_monotone_capped[of catalog3 init "Intersect True"
        "[Intersect True, Intersect True]"]
      revealedCount_monotone_capped[of catalog3 "step catalog3 (Intersect True) init"
        "Intersect True" "[]"] r one n
    by simp
qed

text \<open>
  As stated, the count never exceeds the number of category groups. With a catalog of
  a single group the count is 2 from the start.
\<close>

theorem revealedCount_small_catalog_counterexample:
  "length (categoryGroups catalog1) = 1 \<and>
   visibleCategoryCount (run catalog1 [] init) = 2 \<and>
   \<not> visibleCategoryCount (run catalog1 [] init) \<le> length (categoryGroups catalog1)"
  by (simp add: catalog1_def init_def)

subsection \<open>Opening during the grace window\<close>

text \<open>
  Claim C6 fails on the code. \<open>closePlayer\<close> queues the teardown and nothing cancels
  it: an item opened during the grace window is the active one until the timeout
  expires, and is then cleared while the mode stays full.
\<close>

theorem open_during_grace_is_torn_down:
  "activeVideo (run catalog2 [PlayVideo clip, ClosePlayer, PlayVideo tube] init) = Some tube \<and>
   timers (run catalog2 [PlayVideo clip, ClosePlayer, PlayVideo tube] init)
     = [(220, ClearActiveVideo)] \<and>
   activeVideo (run catalog2 [PlayVideo clip, ClosePlayer, PlayVideo tube, TimerFires 0] init)
     = None \<and>
   playerMode (run catalog2 [PlayVideo clip, ClosePlayer, PlayVideo tube, TimerFires 0] init)
     = Full"
  by (simp add: model_defs clip_def tube_def)

subsection \<open>Touch gestures outside full mode\<close>

text \<open>
  Claim C7 fails on the code. The wheel and pointer-down handlers return at once
  unless the mode is full; the touch handlers do not look at the mode. After a drag
  has minimized the player, an upward swipe of 100 pixels sets the related-sheet flag,
  and restoring the player then shows the sheet open.
\<close>

theorem touch_opens_sheet_in_mini:
  "playerMode (run catalog2 [PlayVideo clip, PointerDown 100 False, PointerMove 400,
      PointerUp 1000] init) = Mini \<and>
   relatedOpen (run catalog2 [PlayVideo clip, PointerDown 100 False, PointerMove 400,
      PointerUp 1000] init) = False \<and>
   playerMode (run catalog2 [PlayVideo clip, PointerDown 100 False, PointerMove 400,
      PointerUp 1000, TouchStart (Some 300), TouchEnd (Some 200)] init) = Mini \<and>
   relatedOpen (run catalog2 [PlayVideo clip, PointerDown 100 False, PointerMove 400,
      PointerUp 1000, TouchStart (Some 300), TouchEnd (Some 200)] init) = True \<and>
   relatedOpen (run catalog2 [PlayVideo clip, PointerDown 100 False, PointerMove 400,
      PointerUp 1000, TouchStart (Some 300), TouchEnd (Some 200), MiniRestore] init) = True \<and>
   relatedOpen (run catalog2 [PlayVideo clip, PointerDown 100 False, PointerMove 400,
      PointerUp 1000, Wheel 100] init) = False"
  by (simp add: model_defs clip_def tube_def)

subsection \<open>Autoplay continuation\<close>

































end
